theory Spec2Isabelle
  imports Main "HOL-Library.AList"
begin

text \<open>
  A model of three modules of the boyle library and the properties its specification
  states of them: the settings loader (\<open>utils/rcfile.py\<close>), the command lookup
  (\<open>commands.py\<close>) and the mask functions (\<open>nifti/mask.py\<close>, with \<open>get_img_data\<close> of
  \<open>nifti/read.py\<close>). Dictionaries are association lists, exceptions are values of the
  type \<open>error\<close>, the mutable \<open>args\<close> dictionary is passed in and returned, and the mask
  functions return, next to their result, the trace of their reads of voxel data and
  of their log entries. What the functions take from the operating system and from
  the libraries they call is a parameter of the model.
\<close>

section \<open>Python values, errors and dictionaries\<close>

text \<open>
  The exceptions the modelled functions raise. The string carries the fixed part of the
  message of the \<open>raise\<close> statement (the formatted image names and values are left out),
  so that an exception raised at one place is a different value from one raised at
  another. \<open>LibError\<close> stands for any exception of an external library.
\<close>

datatype error =
    FileNotFound string
  | NiftiFilesNotCompatible
  | ValueError string
  | IOError string
  | NameError string
  | KeyError string
  | IndexError string
  | TypeError string
  | UnboundLocalError string
  | LibError string

text \<open>
  The values found in the settings dictionaries: \<open>None\<close>, booleans (flags of a command
  line parser) and strings. \<open>truthy\<close> is Python's truth value, \<open>py_or\<close> the operator
  \<open>a or b\<close>, which returns one of its operands.
\<close>

datatype pyval = PyNone | PyBool bool | PyStr string

fun truthy :: "pyval \<Rightarrow> bool" where
  "truthy PyNone = False"
| "truthy (PyBool b) = b"
| "truthy (PyStr s) = (s \<noteq> [])"

definition py_or :: "pyval \<Rightarrow> pyval \<Rightarrow> pyval" where
  "py_or a b = (if truthy a then a else b)"

text \<open>
  A \<open>dict\<close> is an association list with distinct keys, in insertion order.
  \<open>AList.update k v d\<close> is \<open>d[k] = v\<close> (the value is replaced in place when the key is
  there, the pair is appended otherwise), \<open>AList.delete k d\<close> removes the key,
  \<open>dict_get d k\<close> is \<open>d.get(k)\<close>, \<open>dict_get_default d k v\<close> is \<open>d.get(k, v)\<close> and
  \<open>dict_of_pairs\<close> is \<open>dict(pairs)\<close>, where a later pair overwrites an earlier one.
\<close>

type_synonym pydict = "(string \<times> pyval) list"

definition dict_get :: "pydict \<Rightarrow> string \<Rightarrow> pyval" where
  "dict_get d k = (case map_of d k of None \<Rightarrow> PyNone | Some v \<Rightarrow> v)"


definition dict_of_pairs :: "(string \<times> pyval) list \<Rightarrow> pydict" where
  "dict_of_pairs ps = foldl (\<lambda>d (k, v). AList.update k v d) [] ps"

section \<open>Strings and paths\<close>

text \<open>
  \<open>str.upper\<close> and \<open>str.lower\<close> on the ASCII letters, \<open>str.startswith\<close>,
  \<open>s.replace(old, '')\<close> (every non-overlapping occurrence of \<open>old\<close> is removed, scanning
  from the left; an empty \<open>old\<close> leaves \<open>s\<close> as it is), \<open>str.lstrip\<close> and \<open>str.strip\<close>
  of one character, \<open>str.split\<close> at a separator character, and the POSIX
  \<open>os.path.join\<close> and \<open>os.path.split\<close>.
\<close>

definition ascii_lowercase :: string where
  "ascii_lowercase = ''abcdefghijklmnopqrstuvwxyz''"

definition ascii_uppercase :: string where
  "ascii_uppercase = ''ABCDEFGHIJKLMNOPQRSTUVWXYZ''"

definition upper_char :: "char \<Rightarrow> char" where
  "upper_char c =
     (case map_of (zip ascii_lowercase ascii_uppercase) c of None \<Rightarrow> c | Some u \<Rightarrow> u)"

definition lower_char :: "char \<Rightarrow> char" where
  "lower_char c =
     (case map_of (zip ascii_uppercase ascii_lowercase) c of None \<Rightarrow> c | Some l \<Rightarrow> l)"

definition upper :: "string \<Rightarrow> string" where
  "upper s = map upper_char s"

definition lower :: "string \<Rightarrow> string" where
  "lower s = map lower_char s"

definition startswith :: "string \<Rightarrow> string \<Rightarrow> bool" where
  "startswith s p = (take (length p) s = p)"

function replace_by_empty :: "string \<Rightarrow> string \<Rightarrow> string" where
  "replace_by_empty old [] = []"
| "replace_by_empty old (c # cs) =
     (if old \<noteq> [] \<and> startswith (c # cs) old
      then replace_by_empty old (drop (length old) (c # cs))
      else c # replace_by_empty old cs)"
  by pat_completeness auto
termination
  by (relation "measure (\<lambda>(old, s). length s)") (auto simp: neq_Nil_conv)


definition strip :: "char \<Rightarrow> string \<Rightarrow> string" where
  "strip ch s = rev (dropWhile (\<lambda>c. c = ch) (rev (dropWhile (\<lambda>c. c = ch) s)))"

fun split_at :: "char \<Rightarrow> string \<Rightarrow> string list" where
  "split_at sep [] = [[]]"
| "split_at sep (c # cs) =
     (if c = sep then [] # split_at sep cs
      else (case split_at sep cs of
              w # ws \<Rightarrow> (c # w) # ws
            | [] \<Rightarrow> [[c]]))"

definition op_join :: "string \<Rightarrow> string \<Rightarrow> string" where
  "op_join a b =
     (if startswith b ''/'' then b
      else if a = [] \<or> last a = CHR ''/'' then a @ b
      else a @ ''/'' @ b)"

definition op_split :: "string \<Rightarrow> string \<times> string" where
  "op_split p =
     (let tail = rev (takeWhile (\<lambda>c. c \<noteq> CHR ''/'') (rev p));
          head = take (length p - length tail) p
      in (if head \<noteq> [] \<and> \<not> list_all (\<lambda>c. c = CHR ''/'') head
          then rev (dropWhile (\<lambda>c. c = CHR ''/'') (rev head)) else head,
          tail))"

section \<open>The system around the program\<close>

text \<open>
  What the functions read from outside: the environment variables, the home directory,
  the host name, the configuration file parser (\<open>ConfigParser.read\<close> on a list of
  file names, giving the sections it found with their items, or the exception it
  raised), the version of the interpreter, \<open>shutil.which\<close> and the test for an
  executable file.
\<close>

record system =
  os_environ :: "(string \<times> string) list"
  home :: string
  gethostname :: string
  config_read :: "pyval list \<Rightarrow> error + (string \<times> (string \<times> string) list) list"
  version_info :: "nat list"
  shutil_which :: "string \<Rightarrow> string option"
  is_exe :: "string \<Rightarrow> bool"

section \<open>utils/rcfile.py\<close>

text \<open>
  \<open>merge\<close>: the keys are those of both dictionaries; a key's value is
  \<open>dict_1.get(key) or dict_2.get(key)\<close>. The order of the keys of the result is that of
  a Python set, which the model fixes to some order; no theorem depends on it.
\<close>

definition merge :: "pydict \<Rightarrow> pydict \<Rightarrow> pydict" where
  "merge dict_1 dict_2 =
     dict_of_pairs
       (map (\<lambda>key. (key, py_or (dict_get dict_1 key) (dict_get dict_2 key)))
            (remdups (map fst dict_2 @ map fst dict_1)))"

definition get_environment :: "system \<Rightarrow> string \<Rightarrow> pydict" where
  "get_environment sys appname =
     (let prefix = upper appname @ ''_'';
          vars = filter (\<lambda>(k, v). startswith k prefix) (os_environ sys)
      in dict_of_pairs (map (\<lambda>(k, v). (lower (replace_by_empty prefix k), PyStr v)) vars))"









text \<open>\<open>contains old s\<close> is \<open>old in s\<close>: the string \<open>old\<close> occurs in \<open>s\<close>.\<close>

fun contains :: "string \<Rightarrow> string \<Rightarrow> bool" where
  "contains old [] = (old = [])"
| "contains old (c # cs) = (startswith (c # cs) old \<or> contains old cs)"

text \<open>A system to run the functions on.\<close>

definition example_system :: system where
  "example_system =
     \<lparr>os_environ = [(''APP_X'', ''1''), (''APP_x'', ''2''), (''APP_SIZE'', ''big''),
                    (''HOME'', ''/root'')],
      home = ''/root'',
      gethostname = ''node1'',
      config_read = (\<lambda>files.
        Inr [(''app'', [(''color'', ''red''), (''size'', '''')]),
             (''app:node1'', [(''color'', ''blue'')])]),
      version_info = [3, 8, 10],
      shutil_which = (\<lambda>program. None),
      is_exe = (\<lambda>path. False)\<rparr>"

section \<open>commands.py\<close>

text \<open>
  The names bound at the top level of the module: its four imports, \<open>log\<close> and its
  functions. A global name that is neither among them nor a builtin raises
  \<open>NameError\<close> when it is read; \<open>sys\<close> is not a builtin.
\<close>

definition commands_globals :: "string list" where
  "commands_globals =
     [''os'', ''shutil'', ''subprocess'', ''logging'', ''log'', ''which'', ''which_py3'',
      ''which_py2'', ''check_call'', ''condor_call'', ''condor_submit'']"

definition load_global :: "string \<Rightarrow> error + unit" where
  "load_global name = (if name \<in> set commands_globals then Inr () else Inl (NameError name))"

text \<open>Python's order on tuples of numbers: lexicographic, a proper prefix is smaller.\<close>

fun tuple_gt :: "nat list \<Rightarrow> nat list \<Rightarrow> bool" where
  "tuple_gt [] ys = False"
| "tuple_gt (x # xs) [] = True"
| "tuple_gt (x # xs) (y # ys) = (x > y \<or> (x = y \<and> tuple_gt xs ys))"

definition which_py3 :: "system \<Rightarrow> string \<Rightarrow> error + string option" where
  "which_py3 sys program = Inr (shutil_which sys program)"

fun first_exe :: "system \<Rightarrow> string \<Rightarrow> string list \<Rightarrow> string option" where
  "first_exe sys program [] = None"
| "first_exe sys program (path # paths) =
     (let exe_file = op_join (strip CHR 0x22 path) program
      in if is_exe sys exe_file then Some exe_file else first_exe sys program paths)"

definition which_py2 :: "system \<Rightarrow> string \<Rightarrow> error + string option" where
  "which_py2 sys program =
     (case op_split program of
        (fpath, fname) \<Rightarrow>
          if fpath \<noteq> [] then (if is_exe sys program then Inr (Some program) else Inr None)
          else (case map_of (os_environ sys) ''PATH'' of
                  None \<Rightarrow> Inl (KeyError ''PATH'')
                | Some paths \<Rightarrow> Inr (first_exe sys program (split_at CHR '':'' paths))))"

definition which :: "system \<Rightarrow> string \<Rightarrow> error + string option" where
  "which sys program =
     (case load_global ''sys'' of
        Inl e \<Rightarrow> Inl e
      | Inr _ \<Rightarrow>
          if tuple_gt (version_info sys) [3, 0] then which_py3 sys program
          else which_py2 sys program)"

section \<open>Arrays and images\<close>

text \<open>
  A numpy array is its shape and its elements in C order (the last index runs fastest);
  \<open>wf_array\<close> says that there are as many elements as the shape asks for. Voxel values
  are integers; an array of dtype \<open>bool\<close> holds \<open>0\<close> and \<open>1\<close>. An image is its voxel
  array and its affine (the sixteen entries of the 4x4 matrix); the header plays no
  part in the functions modelled here. An image-like argument is a file path or an
  image object.
\<close>

record ndarray =
  shape :: "nat list"
  data :: "int list"

definition wf_array :: "ndarray \<Rightarrow> bool" where
  "wf_array a = (length (data a) = prod_list (shape a))"

record nifti =
  dataobj :: ndarray
  affine :: "int list"

datatype img_like = Path string | Image nifti

text \<open>
  What a run leaves behind besides its result: the reads of the voxel data of an image
  (\<open>get_data\<close>) and the calls of \<open>log.exception\<close>, in order. A run is the result, or the
  exception raised, together with these events.
\<close>

datatype event = GetData nifti | LogException string

type_synonym 'a run = "(error + 'a) \<times> event list"

definition ret :: "'a \<Rightarrow> 'a run" where
  "ret x = (Inr x, [])"

definition raise :: "error \<Rightarrow> 'a run" where
  "raise e = (Inl e, [])"

definition lift :: "error + 'a \<Rightarrow> 'a run" where
  "lift r = (r, [])"

definition bnd :: "'a run \<Rightarrow> ('a \<Rightarrow> 'b run) \<Rightarrow> 'b run" where
  "bnd m f =
     (case m of
        (Inl e, t) \<Rightarrow> (Inl e, t)
      | (Inr x, t) \<Rightarrow> (case f x of (r, t') \<Rightarrow> (r, t @ t')))"

definition try_except :: "'a run \<Rightarrow> (error \<Rightarrow> 'a run) \<Rightarrow> 'a run" where
  "try_except m handler =
     (case m of
        (Inl e, t) \<Rightarrow> (case handler e of (r, t') \<Rightarrow> (r, t @ t'))
      | (Inr x, t) \<Rightarrow> (Inr x, t))"

definition log_exception :: "string \<Rightarrow> unit run" where
  "log_exception msg = (Inr (), [LogException msg])"

subsection \<open>numpy\<close>

text \<open>
  \<open>np.unique\<close> (the sorted distinct values), the conversion to dtype \<open>bool\<close>
  (\<open>as_ndarray(a, dtype=bool)\<close>), \<open>a > threshold\<close>, \<open>np.zeros\<close>, \<open>np.where\<close> (one array
  of indices for each dimension, the non-zero positions in C order), indexing by a
  boolean array \<open>vol[mask]\<close>, indexing by a tuple of index arrays \<open>vol[indices]\<close>, the
  in-place sum \<open>a += b\<close> of arrays of one shape, and the assignment of a row
  \<open>outmat[i, :] = row\<close>, which broadcasts a row of one element and raises \<open>ValueError\<close>
  on any other row that is not as long as the matrix is wide.
\<close>

definition np_unique :: "ndarray \<Rightarrow> int list" where
  "np_unique a = sort (remdups (data a))"

definition as_bool :: "ndarray \<Rightarrow> ndarray" where
  "as_bool a = a\<lparr>data := map (\<lambda>x. if x \<noteq> 0 then 1 else 0) (data a)\<rparr>"


definition np_zeros :: "nat list \<Rightarrow> ndarray" where
  "np_zeros shp = \<lparr>shape = shp, data = replicate (prod_list shp) 0\<rparr>"

definition nonzero_flat :: "int list \<Rightarrow> nat list" where
  "nonzero_flat xs = filter (\<lambda>i. xs ! i \<noteq> 0) [0..<length xs]"

fun unravel_index :: "nat list \<Rightarrow> nat \<Rightarrow> nat list" where
  "unravel_index [] i = []"
| "unravel_index (n # ns) i = (i div prod_list ns) # unravel_index ns (i mod prod_list ns)"

fun ravel_index :: "nat list \<Rightarrow> nat list \<Rightarrow> nat" where
  "ravel_index (n # ns) (c # cs) = c * prod_list ns + ravel_index ns cs"
| "ravel_index ns cs = 0"

definition np_where :: "ndarray \<Rightarrow> nat list list" where
  "np_where a =
     map (\<lambda>d. map (\<lambda>i. unravel_index (shape a) i ! d) (nonzero_flat (data a)))
         [0..<length (shape a)]"

definition bool_index :: "ndarray \<Rightarrow> ndarray \<Rightarrow> error + ndarray" where
  "bool_index vol mask_data =
     (let n = length (shape mask_data);
          rest = drop n (shape vol);
          block = prod_list rest
      in if n \<le> length (shape vol) \<and> take n (shape vol) = shape mask_data
         then Inr \<lparr>shape = length (nonzero_flat (data mask_data)) # rest,
                   data = concat (map (\<lambda>i. take block (drop (i * block) (data vol)))
                                      (nonzero_flat (data mask_data)))\<rparr>
         else Inl (IndexError ''boolean index did not match indexed array''))"

definition index_arrays :: "ndarray \<Rightarrow> nat list list \<Rightarrow> error + ndarray" where
  "index_arrays vol indices =
     (let n = length indices;
          rest = drop n (shape vol);
          block = prod_list rest;
          points = (case indices of
                      [] \<Rightarrow> []
                    | ix0 # _ \<Rightarrow> map (\<lambda>j. map (\<lambda>ix. ix ! j) indices) [0..<length ix0])
      in if indices = [] then Inr vol
         else if n > length (shape vol) then Inl (IndexError ''too many indices for array'')
         else if \<not> list_all (\<lambda>p. list_all2 (\<lambda>c d. c < d) p (take n (shape vol))) points
           then Inl (IndexError ''index is out of bounds'')
         else Inr \<lparr>shape = length points # rest,
                   data = concat (map (\<lambda>p. take block
                                     (drop (ravel_index (take n (shape vol)) p * block) (data vol)))
                                      points)\<rparr>)"


definition set_row :: "ndarray \<Rightarrow> nat \<Rightarrow> ndarray \<Rightarrow> error + ndarray" where
  "set_row outmat i row =
     (let ncols = prod_list (drop 1 (shape outmat));
          s = dropWhile (\<lambda>d. d = 1) (shape row);
          put = (\<lambda>vals. outmat\<lparr>data := take (i * ncols) (data outmat) @ vals @
                                         drop ((i + 1) * ncols) (data outmat)\<rparr>)
      in if s = [ncols] then Inr (put (data row))
         else if s = [] then Inr (put (concat (replicate ncols (take 1 (data row)))))
         else Inl (ValueError ''could not broadcast input array''))"

text \<open>
  \<open>np.count_nonzero\<close> of an image object, as \<open>niftilist_mask_to_array\<close> calls it: an
  object that is neither an array nor a sequence becomes a 0-dimensional array of dtype
  \<open>object\<close>, whose one element counts when it is truthy, and an image object is truthy.
  The voxels of the image are not looked at.
\<close>

definition count_nonzero_object :: "nifti \<Rightarrow> nat" where
  "count_nonzero_object img = 1"

subsection \<open>nifti/check.py, which the sources do not hold\<close>

text \<open>
  Modelled from the spec: \<open>check_img\<close> (nifti/check.py is missing from the sources).
  The image access shim opens a path or accepts an already-loaded image-like object.
  Opening a path is the image library's work, the parameter \<open>nib_load\<close>, which is
  given the path and the flag \<open>make_it_3d\<close> and returns the image or the exception
  raised (file not found among them). Loading does not read the voxels: that is
  \<open>get_data\<close>.
\<close>

type_synonym loader = "string \<Rightarrow> bool \<Rightarrow> error + nifti"

definition check_img :: "loader \<Rightarrow> img_like \<Rightarrow> bool \<Rightarrow> error + nifti" where
  "check_img nib_load image' make_it_3d =
     (case image' of Path p \<Rightarrow> nib_load p make_it_3d | Image img \<Rightarrow> Inr img)"

text \<open>
  Modelled from the spec: \<open>get_data\<close> (nifti/check.py is missing from the sources), and
  the method \<open>img.get_data()\<close> of the image library. Both give the voxel data of an
  image; the read is an event of the run.
\<close>

definition get_data :: "nifti \<Rightarrow> ndarray run" where
  "get_data img = (Inr (dataobj img), [GetData img])"

text \<open>
  Modelled from the spec: \<open>check_img_compatibility\<close> and \<open>are_compatible_imgs\<close>
  (nifti/check.py is missing from the sources). The compatibility checker compares the
  shape (optionally the first three dimensions only) and the affine of two images and
  raises the incompatibility error on a mismatch; it looks at metadata only.
  \<open>are_compatible_imgs\<close> takes image-like arguments and answers with a boolean.
\<close>

definition have_same_shape :: "nifti \<Rightarrow> nifti \<Rightarrow> bool \<Rightarrow> bool" where
  "have_same_shape one_img another_img only_check_3d =
     (if only_check_3d
      then take 3 (shape (dataobj one_img)) = take 3 (shape (dataobj another_img))
      else shape (dataobj one_img) = shape (dataobj another_img))"

definition check_img_compatibility :: "nifti \<Rightarrow> nifti \<Rightarrow> bool \<Rightarrow> unit run" where
  "check_img_compatibility one_img another_img only_check_3d =
     (if \<not> have_same_shape one_img another_img only_check_3d then raise NiftiFilesNotCompatible
      else if affine one_img \<noteq> affine another_img then raise NiftiFilesNotCompatible
      else ret ())"

definition are_compatible_imgs :: "loader \<Rightarrow> img_like \<Rightarrow> img_like \<Rightarrow> bool run" where
  "are_compatible_imgs nib_load one_img another_img =
     bnd (lift (check_img nib_load one_img False)) (\<lambda>a.
     bnd (lift (check_img nib_load another_img False)) (\<lambda>b.
     ret (have_same_shape a b False \<and> affine a = affine b)))"

section \<open>nifti/read.py\<close>

definition get_img_data :: "loader \<Rightarrow> img_like \<Rightarrow> ndarray run" where
  "get_img_data nib_load image' =
     try_except
       (bnd (lift (check_img nib_load image' False)) (\<lambda>img. get_data img))
       (\<lambda>e. bnd (log_exception ''Error when reading file'') (\<lambda>_. raise e))"

section \<open>nifti/mask.py\<close>

definition load_mask :: "loader \<Rightarrow> img_like \<Rightarrow> bool \<Rightarrow> nifti run" where
  "load_mask nib_load image' allow_empty =
     bnd (try_except
            (bnd (lift (check_img nib_load image' True)) (\<lambda>img.
             bnd (get_data img) (\<lambda>d.
             ret (img, np_unique d))))
            (\<lambda>e. bnd (log_exception ''Error reading mask'') (\<lambda>_. raise e)))
         (\<lambda>(img, values).
     bnd (if length values = 1 then
            (if values ! 0 = 0 \<and> \<not> allow_empty
             then raise (ValueError ''Given mask is invalid because it masks all data'')
             else ret ())
          else if length values = 2 then
            (if 0 \<notin> set values
             then raise (ValueError ''Background of the mask must be represented with 0'')
             else ret ())
          else if length values \<noteq> 2 then
            raise (ValueError ''Given mask is not made of 2 values'')
          else ret ())
         (\<lambda>_.
     bnd (get_img_data nib_load (Image img)) (\<lambda>d.
     ret \<lparr>dataobj = as_bool d, affine = affine img\<rparr>)))"





definition apply_mask :: "loader \<Rightarrow> img_like \<Rightarrow> img_like \<Rightarrow> (ndarray \<times> nat list list) run" where
  "apply_mask nib_load image' mask_img =
     bnd (try_except
            (bnd (lift (check_img nib_load image' False)) (\<lambda>img.
             bnd (lift (check_img nib_load mask_img False)) (\<lambda>mask.
             bnd (check_img_compatibility img mask False) (\<lambda>_.
             ret img))))
            (\<lambda>e. bnd (log_exception ''Images are not compatible'') (\<lambda>_.
                 raise NiftiFilesNotCompatible)))
         (\<lambda>img.
     bnd (try_except
            (bnd (get_data img) (\<lambda>vol.
             bnd (load_mask nib_load mask_img True) (\<lambda>mask.
             bnd (get_data mask) (\<lambda>mask_data.
             ret (vol, mask_data, np_where mask_data)))))
            (\<lambda>e. bnd (log_exception ''Error applying mask'') (\<lambda>_.
                 raise (ValueError ''Error applying mask''))))
         (\<lambda>(vol, mask_data, indices).
     bnd (lift (bool_index vol mask_data)) (\<lambda>vals.
     ret (vals, indices))))"



text \<open>
  The loop of \<open>niftilist_mask_to_array\<close> over \<open>enumerate(img_filelist)\<close>. The element
  type \<open>outdtype\<close> has no counterpart in the model, whose arrays hold integers.
\<close>

fun niftilist_loop ::
  "loader \<Rightarrow> img_like \<Rightarrow> nat list list \<Rightarrow> (nat \<times> img_like) list \<Rightarrow> ndarray \<Rightarrow> ndarray run" where
  "niftilist_loop nib_load mask_file indices [] outmat = ret outmat"
| "niftilist_loop nib_load mask_file indices ((i, img_item) # rest) outmat =
     bnd (lift (check_img nib_load img_item False)) (\<lambda>img.
     bnd (are_compatible_imgs nib_load (Image img) mask_file) (\<lambda>compatible.
     if \<not> compatible then raise NiftiFilesNotCompatible
     else
       bnd (get_img_data nib_load (Image img)) (\<lambda>vol.
       bnd (lift (index_arrays vol indices)) (\<lambda>row.
       bnd (lift (set_row outmat i row)) (\<lambda>outmat'.
       niftilist_loop nib_load mask_file indices rest outmat')))))"

definition niftilist_mask_to_array ::
  "loader \<Rightarrow> img_like list \<Rightarrow> img_like \<Rightarrow> (ndarray \<times> nat list list \<times> nat list) run" where
  "niftilist_mask_to_array nib_load img_filelist mask_file =
     (case img_filelist of
        [] \<Rightarrow> raise (IndexError ''list index out of range'')
      | img_item0 # _ \<Rightarrow>
          bnd (lift (check_img nib_load img_item0 False)) (\<lambda>img.
          bnd (load_mask nib_load mask_file True) (\<lambda>mask.
          bnd (get_img_data nib_load (Image mask)) (\<lambda>mask_data.
          (let indices = np_where mask_data;
               outmat = np_zeros [length img_filelist, count_nonzero_object mask]
           in bnd (try_except
                     (niftilist_loop nib_load mask_file indices
                        (zip [0..<length img_filelist] img_filelist) outmat)
                     (\<lambda>e. bnd (log_exception ''Error when reading file'') (\<lambda>_. raise e)))
                  (\<lambda>outmat'.
              ret (outmat', indices, shape mask_data)))))))"

text \<open>
  Scattering values back, as the specification words it: a fresh array of zeros of the
  full shape, in which the \<open>j\<close>-th value is stored at the position the \<open>j\<close>-th entries
  of the index arrays name (\<open>out = np.zeros(shape); out[indices] = values\<close>).
\<close>

definition scatter :: "nat list \<Rightarrow> nat list list \<Rightarrow> int list \<Rightarrow> ndarray" where
  "scatter shp indices vals =
     \<lparr>shape = shp,
      data = foldl (\<lambda>out j. out[ravel_index shp (map (\<lambda>ix. ix ! j) indices) := vals ! j])
                   (replicate (prod_list shp) 0) [0..<length vals]\<rparr>"

text \<open>Images and a loader to run the functions on.\<close>

definition identity_affine :: "int list" where
  "identity_affine = [1, 0, 0, 0,  0, 1, 0, 0,  0, 0, 1, 0,  0, 0, 0, 1]"

definition example_vol :: nifti where
  "example_vol = \<lparr>dataobj = \<lparr>shape = [1, 2, 2], data = [5, 6, 7, 8]\<rparr>, affine = identity_affine\<rparr>"

definition example_mask :: nifti where
  "example_mask = \<lparr>dataobj = \<lparr>shape = [1, 2, 2], data = [0, 0, 0, 1]\<rparr>, affine = identity_affine\<rparr>"

definition example_mask2 :: nifti where
  "example_mask2 = \<lparr>dataobj = \<lparr>shape = [1, 2, 2], data = [0, 3, 0, 3]\<rparr>, affine = identity_affine\<rparr>"

definition example_labels :: nifti where
  "example_labels = \<lparr>dataobj = \<lparr>shape = [1, 2, 2], data = [1, 2, 3, 4]\<rparr>, affine = identity_affine\<rparr>"

definition example_small :: nifti where
  "example_small = \<lparr>dataobj = \<lparr>shape = [1, 1, 2], data = [9, 9]\<rparr>, affine = identity_affine\<rparr>"

definition example_load :: loader where
  "example_load path make_it_3d =
     (case map_of [(''vol.nii'', example_vol), (''mask.nii'', example_mask),
                   (''mask2.nii'', example_mask2), (''labels.nii'', example_labels),
                   (''small.nii'', example_small)] path of
        Some img \<Rightarrow> Inr img
      | None \<Rightarrow> Inl (FileNotFound path))"

text \<open>
  The values a mask may hold, as the specification words it: exactly one distinct value
  (allowed only if non-zero, or if empty masks are permitted), or exactly two distinct
  values of which one is zero.
\<close>

definition legal_mask_values :: "int set \<Rightarrow> bool \<Rightarrow> bool" where
  "legal_mask_values V allow_empty =
     (card V = 1 \<and> (0 \<notin> V \<or> allow_empty) \<or> card V = 2 \<and> 0 \<in> V)"

section \<open>Properties of the settings loader\<close>

lemma map_of_dict_of_pairs_aux:
  "map_of (foldl (\<lambda>d (k, v). AList.update k v d) d0 ps) = map_of d0 ++ map_of (rev ps)"
proof (induction ps arbitrary: d0)
  case Nil
  show ?case by simp
next
  case (Cons p ps)
  obtain k v where p: "p = (k, v)" by (cases p)
  show ?case
    by (simp add: Cons.IH p update_conv' map_add_upd_left fun_eq_iff map_add_def split: option.splits)
qed

lemma map_of_dict_of_pairs: "map_of (dict_of_pairs ps) = map_of (rev ps)"
  by (simp add: dict_of_pairs_def map_of_dict_of_pairs_aux)

lemma keys_dict_of_pairs_aux:
  "fst ` set (foldl (\<lambda>d (k, v). AList.update k v d) d0 ps) = fst ` set d0 \<union> fst ` set ps"
proof (induction ps arbitrary: d0)
  case Nil
  show ?case by simp
next
  case (Cons p ps)
  obtain k v where p: "p = (k, v)" by (cases p)
  have "fst ` set (AList.update k v d0) = insert k (fst ` set d0)"
    by (simp add: dom_update)
  then show ?case by (simp add: Cons.IH p)
qed

lemma keys_dict_of_pairs: "fst ` set (dict_of_pairs ps) = fst ` set ps"
  by (simp add: dict_of_pairs_def keys_dict_of_pairs_aux)





lemma keys_merge: "fst ` set (merge d1 d2) = fst ` set d1 \<union> fst ` set d2"
  by (auto simp: merge_def keys_dict_of_pairs image_image)

















lemma replace_by_empty_absent:
  "old \<noteq> [] \<Longrightarrow> \<not> contains old s \<Longrightarrow> replace_by_empty old s = s"
  by (induction s) auto

lemma replace_by_empty_prefix:
  assumes "old \<noteq> []" and "startswith s old"
  shows "replace_by_empty old s = replace_by_empty old (drop (length old) s)"
proof (cases s)
  case Nil
  with assms show ?thesis by (simp add: startswith_def)
next
  case (Cons c cs)
  with assms show ?thesis by simp
qed

lemma map_of_unique_value:
  assumes "(k, v) \<in> set ps" and "\<And>v'. (k, v') \<in> set ps \<Longrightarrow> v' = v"
  shows "map_of ps k = Some v"
proof (cases "map_of ps k")
  case None
  with assms(1) show ?thesis by (simp add: map_of_eq_None_iff) (metis fst_conv image_eqI)
next
  case (Some v')
  then have "(k, v') \<in> set ps" by (rule map_of_SomeD)
  with assms(2) Some show ?thesis by simp
qed

lemma get_environment_pairs:
  assumes "prefix = upper appname @ ''_''"
      and "\<And>k v. (k, v) \<in> set (os_environ sys) \<Longrightarrow> startswith k prefix \<Longrightarrow>
             \<not> contains prefix (drop (length prefix) k)"
  shows "get_environment sys appname =
           dict_of_pairs (map (\<lambda>(k, v). (lower (drop (length prefix) k), PyStr v))
                              (filter (\<lambda>(k, v). startswith k prefix) (os_environ sys)))"
proof -
  have ne: "prefix \<noteq> []" using assms(1) by simp
  have eq: "map (\<lambda>(k, v). (lower (replace_by_empty prefix k), PyStr v))
            (filter (\<lambda>(k, v). startswith k prefix) (os_environ sys))
      = map (\<lambda>(k, v). (lower (drop (length prefix) k), PyStr v))
            (filter (\<lambda>(k, v). startswith k prefix) (os_environ sys))"
  proof (rule map_cong[OF refl])
    fix x assume x: "x \<in> set (filter (\<lambda>(k, v). startswith k prefix) (os_environ sys))"
    obtain k v where kv: "x = (k, v)" by (cases x)
    from x kv have mem: "(k, v) \<in> set (os_environ sys)" and sw: "startswith k prefix" by auto
    have "replace_by_empty prefix k = replace_by_empty prefix (drop (length prefix) k)"
      by (rule replace_by_empty_prefix[OF ne sw])
    also have "\<dots> = drop (length prefix) k"
      by (rule replace_by_empty_absent[OF ne assms(2)[OF mem sw]])
    finally show "(case x of (k, v) \<Rightarrow> (lower (replace_by_empty prefix k), PyStr v))
                = (case x of (k, v) \<Rightarrow> (lower (drop (length prefix) k), PyStr v))"
      by (simp add: kv)
  qed
  show ?thesis
    unfolding get_environment_def Let_def assms(1)[symmetric] eq by (rule refl)
qed

text \<open>
  Claim C7, as amended. Let the prefix be the upper-cased application name followed by
  an underscore, and let no environment variable that starts with the prefix contain the
  prefix a second time in the rest of its name. Then the keys of the mapping
  \<open>get_environment\<close> returns are exactly the names of the variables that start with
  the prefix, with the prefix removed and the rest lower-cased; and a variable whose
  key no other such variable shares (names that differ in letter case only share one) is
  mapped to its unmodified value.
\<close>

theorem get_environment_unrepeated_prefix:
  assumes "distinct (map fst (os_environ sys))"
      and "prefix = upper appname @ ''_''"
      and "\<forall>(k, v) \<in> set (os_environ sys).
             startswith k prefix \<longrightarrow> \<not> contains prefix (drop (length prefix) k)"
  shows "fst ` set (get_environment sys appname) =
           {lower (drop (length prefix) k) | k v.
              (k, v) \<in> set (os_environ sys) \<and> startswith k prefix}
         \<and> (\<forall>(k, v) \<in> set (os_environ sys).
              startswith k prefix \<and>
              (\<forall>(k', v') \<in> set (os_environ sys).
                 startswith k' prefix \<and>
                 lower (drop (length prefix) k') = lower (drop (length prefix) k) \<longrightarrow> k' = k)
              \<longrightarrow> map_of (get_environment sys appname) (lower (drop (length prefix) k))
                    = Some (PyStr v))"
proof -
  let ?vars = "filter (\<lambda>(k, v). startswith k prefix) (os_environ sys)"
  let ?ps = "map (\<lambda>(k, v). (lower (drop (length prefix) k), PyStr v)) ?vars"
  have ge: "get_environment sys appname = dict_of_pairs ?ps"
    by (rule get_environment_pairs[OF assms(2)]) (use assms(3) in blast)
  have keys: "fst ` set (get_environment sys appname) =
           {lower (drop (length prefix) k) | k v.
              (k, v) \<in> set (os_environ sys) \<and> startswith k prefix}"
    unfolding ge keys_dict_of_pairs by (force simp: image_iff)
  have vals: "map_of (get_environment sys appname) (lower (drop (length prefix) k)) = Some (PyStr v)"
    if mem: "(k, v) \<in> set (os_environ sys)" and sw: "startswith k prefix"
      and uniq: "\<forall>(k', v') \<in> set (os_environ sys).
                 startswith k' prefix \<and>
                 lower (drop (length prefix) k') = lower (drop (length prefix) k) \<longrightarrow> k' = k"
    for k v
  proof -
    have in_ps: "(lower (drop (length prefix) k), PyStr v) \<in> set (rev ?ps)"
      using mem sw by force
    have only: "v' = PyStr v" if "(lower (drop (length prefix) k), v') \<in> set (rev ?ps)" for v'
    proof -
      from that obtain k' w where kw: "(k', w) \<in> set (os_environ sys)" "startswith k' prefix"
        "lower (drop (length prefix) k') = lower (drop (length prefix) k)" "v' = PyStr w"
        by auto
      with uniq have "k' = k" by blast
      with kw(1) mem assms(1) have "w = v" by (meson eq_key_imp_eq_value)
      with kw(4) show ?thesis by simp
    qed
    show ?thesis
      unfolding ge map_of_dict_of_pairs
      by (rule map_of_unique_value[OF in_ps only])
  qed
  from keys vals show ?thesis by blast
qed

theorem get_environment_unrepeated_prefix_witness:
  "''size'' \<in> fst ` set (get_environment example_system ''app'')
   \<and> map_of (get_environment example_system ''app'') ''size'' = Some (PyStr ''big'')"
proof -
  have d: "distinct (map fst (os_environ example_system))"
    by (simp add: example_system_def)
  have p: "''APP_'' = upper ''app'' @ ''_''"
    by (simp add: upper_def upper_char_def ascii_lowercase_def ascii_uppercase_def)
  have c: "\<forall>(k, v) \<in> set (os_environ example_system).
             startswith k ''APP_'' \<longrightarrow> \<not> contains ''APP_'' (drop (length ''APP_'') k)"
    by (simp add: example_system_def startswith_def)
  have l: "lower ''SIZE'' = ''size''" "lower ''X'' = ''x''" "lower ''x'' = ''x''"
    by (simp_all add: lower_def lower_char_def ascii_lowercase_def ascii_uppercase_def)
  have m: "(''APP_SIZE'', ''big'') \<in> set (os_environ example_system)"
    by (simp add: example_system_def)
  have sw: "startswith ''APP_SIZE'' ''APP_''"
    by (simp add: startswith_def)
  have u: "\<forall>(k', v') \<in> set (os_environ example_system).
             startswith k' ''APP_'' \<and>
             lower (drop (length ''APP_'') k') = lower (drop (length ''APP_'') ''APP_SIZE'')
             \<longrightarrow> k' = ''APP_SIZE''"
    using l by (simp add: example_system_def startswith_def)
  note inst = get_environment_unrepeated_prefix[OF d p c]
  have "lower (drop (length ''APP_'') ''APP_SIZE'') \<in> fst ` set (get_environment example_system ''app'')"
    unfolding conjunct1[OF inst] using m sw by blast
  moreover have "map_of (get_environment example_system ''app'')
                   (lower (drop (length ''APP_'') ''APP_SIZE'')) = Some (PyStr ''big'')"
    using conjunct2[OF inst] m sw u by blast
  ultimately show ?thesis using l by simp
qed

text \<open>
  The claim as stated fails where two variables differ in letter case only: \<open>APP_X=1\<close>
  and \<open>APP_x=2\<close> both start with \<open>APP_\<close>, and the mapping holds the one key \<open>x\<close>,
  with the value \<open>2\<close>; the value of \<open>APP_X\<close> is not in it.
\<close>

theorem get_environment_collision_counterexample:
  "(''APP_X'', ''1'') \<in> set (os_environ example_system)
   \<and> startswith ''APP_X'' (upper ''app'' @ ''_'')
   \<and> get_environment example_system ''app'' = [(''x'', PyStr ''2''), (''size'', PyStr ''big'')]"
  by code_simp

section \<open>Properties of the mask functions\<close>

lemma bnd_Inr [simp]: "bnd (Inr x, t) f = (fst (f x), t @ snd (f x))"
  by (simp add: bnd_def split: prod.splits)

lemma bnd_Inl [simp]: "bnd (Inl e, t) f = (Inl e, t)"
  by (simp add: bnd_def)

lemma bnd_ret [simp]: "bnd (ret x) f = f x"
  by (simp add: ret_def)

lemma bnd_raise [simp]: "bnd (raise e) f = raise e"
  by (simp add: raise_def)

lemma bnd_lift_Inr [simp]: "bnd (lift (Inr x)) f = f x"
  by (simp add: lift_def)

lemma bnd_lift_Inl [simp]: "bnd (lift (Inl e)) f = (Inl e, [])"
  by (simp add: lift_def)

lemma try_except_Inr [simp]: "try_except (Inr x, t) h = (Inr x, t)"
  by (simp add: try_except_def)

lemma try_except_Inl [simp]: "try_except (Inl e, t) h = (fst (h e), t @ snd (h e))"
  by (simp add: try_except_def split: prod.splits)

lemma try_except_raise [simp]: "try_except (raise e) h = h e"
  by (simp add: raise_def)

lemma log_then_raise [simp]:
  "bnd (log_exception msg) (\<lambda>_. raise e) = (Inl e, [LogException msg])"
  by (simp add: log_exception_def raise_def)

lemma check_img_Image [simp]: "check_img nib_load (Image img) b = Inr img"
  by (simp add: check_img_def)

lemma get_img_data_Image [simp]:
  "get_img_data nib_load (Image img) = (Inr (dataobj img), [GetData img])"
  by (simp add: get_img_data_def get_data_def)

lemma length_np_unique: "length (np_unique a) = card (set (data a))"
  by (simp add: np_unique_def length_remdups_card_conv)

lemma set_np_unique: "set (np_unique a) = set (data a)"
  by (simp add: np_unique_def)

lemma np_unique_single:
  assumes "length (np_unique a) = 1"
  shows "np_unique a ! 0 = 0 \<longleftrightarrow> 0 \<in> set (data a)"
proof -
  from assms obtain v where v: "np_unique a = [v]"
    by (cases "np_unique a") auto
  then have "set (data a) = {v}" using set_np_unique[of a] by simp
  with v show ?thesis by auto
qed

lemma load_mask_run:
  assumes "check_img nib_load image' True = Inr img"
  shows "load_mask nib_load image' allow_empty =
    (if card (set (data (dataobj img))) = 1 then
       (if 0 \<in> set (data (dataobj img)) \<and> \<not> allow_empty
        then (Inl (ValueError ''Given mask is invalid because it masks all data''), [GetData img])
        else (Inr \<lparr>dataobj = as_bool (dataobj img), affine = affine img\<rparr>, [GetData img, GetData img]))
     else if card (set (data (dataobj img))) = 2 then
       (if 0 \<notin> set (data (dataobj img))
        then (Inl (ValueError ''Background of the mask must be represented with 0''), [GetData img])
        else (Inr \<lparr>dataobj = as_bool (dataobj img), affine = affine img\<rparr>, [GetData img, GetData img]))
     else (Inl (ValueError ''Given mask is not made of 2 values''), [GetData img]))"
  using assms np_unique_single[of "dataobj img"]
  by (simp add: load_mask_def get_data_def ret_def raise_def length_np_unique set_np_unique)

text \<open>
  Claim C1. For an image that can be read, \<open>load_mask\<close> accepts the mask exactly when
  its set of distinct raw values has one element (which is non-zero, or empty masks are
  allowed, as they are by default) or two elements of which one is zero: it then returns
  the boolean image. For every other set of values it raises the invalid-mask
  \<open>ValueError\<close>.
\<close>

theorem load_mask_accepts_iff:
  assumes "check_img nib_load image' True = Inr img"
  shows "(legal_mask_values (set (data (dataobj img))) allow_empty \<longrightarrow>
            fst (load_mask nib_load image' allow_empty) =
              Inr \<lparr>dataobj = as_bool (dataobj img), affine = affine img\<rparr>)
       \<and> (\<not> legal_mask_values (set (data (dataobj img))) allow_empty \<longrightarrow>
            (\<exists>msg. fst (load_mask nib_load image' allow_empty) = Inl (ValueError msg)))"
  unfolding load_mask_run[OF assms] legal_mask_values_def by auto

theorem load_mask_accepts_iff_witness:
  "fst (load_mask example_load (Path ''mask.nii'') True) =
     Inr \<lparr>dataobj = \<lparr>shape = [1, 2, 2], data = [0, 0, 0, 1]\<rparr>, affine = identity_affine\<rparr>
   \<and> (\<exists>msg. fst (load_mask example_load (Path ''labels.nii'') True) = Inl (ValueError msg))"
proof -
  have c1: "check_img example_load (Path ''mask.nii'') True = Inr example_mask"
    by (simp add: check_img_def example_load_def)
  have c2: "check_img example_load (Path ''labels.nii'') True = Inr example_labels"
    by (simp add: check_img_def example_load_def)
  have s1: "set (data (dataobj example_mask)) = {0, 1}"
    by (auto simp: example_mask_def)
  have s2: "set (data (dataobj example_labels)) = {1, 2, 3, 4}"
    by (auto simp: example_labels_def)
  have l1: "legal_mask_values (set (data (dataobj example_mask))) True"
    unfolding s1 by (simp add: legal_mask_values_def)
  have l2: "\<not> legal_mask_values (set (data (dataobj example_labels))) True"
    unfolding s2 by (simp add: legal_mask_values_def)
  have b: "as_bool (dataobj example_mask) = \<lparr>shape = [1, 2, 2], data = [0, 0, 0, 1]\<rparr>"
    by (simp add: as_bool_def example_mask_def)
  from load_mask_accepts_iff[OF c1, of True] load_mask_accepts_iff[OF c2, of True] l1 l2
  show ?thesis by (simp add: b) (simp add: example_mask_def)
qed

lemma length_unravel_index: "length (unravel_index ns i) = length ns"
  by (induction ns arbitrary: i) auto

lemma ravel_unravel: "i < prod_list ns \<Longrightarrow> ravel_index ns (unravel_index ns i) = i"
proof (induction ns arbitrary: i)
  case Nil
  then show ?case by simp
next
  case (Cons n ns)
  from Cons.prems have pos: "0 < prod_list ns"
    by (cases "prod_list ns = 0") auto
  then have "i mod prod_list ns < prod_list ns" by simp
  then have "ravel_index ns (unravel_index ns (i mod prod_list ns)) = i mod prod_list ns"
    by (rule Cons.IH)
  then show ?case by simp
qed

lemma nonzero_flat_as_bool:
  "nonzero_flat (map (\<lambda>x. if x \<noteq> 0 then 1 else 0) xs) = nonzero_flat xs"
  unfolding nonzero_flat_def by (rule filter_cong) auto

lemma set_nonzero_flat: "set (nonzero_flat xs) = {i. i < length xs \<and> xs ! i \<noteq> 0}"
  by (auto simp: nonzero_flat_def)

lemma bool_index_same_shape:
  assumes "shape mask_data = shape vol" and "wf_array vol" and "wf_array mask_data"
  shows "bool_index vol mask_data =
           Inr \<lparr>shape = [length (nonzero_flat (data mask_data))],
                data = map (\<lambda>i. data vol ! i) (nonzero_flat (data mask_data))\<rparr>"
proof -
  have len: "length (data mask_data) = length (data vol)"
    using assms by (simp add: wf_array_def)
  have eq: "map (\<lambda>i. take 1 (drop i (data vol))) (nonzero_flat (data mask_data))
      = map (\<lambda>i. [data vol ! i]) (nonzero_flat (data mask_data))"
  proof (rule map_cong[OF refl])
    fix i assume "i \<in> set (nonzero_flat (data mask_data))"
    then have "i < length (data vol)" using len by (simp add: set_nonzero_flat)
    then have "drop i (data vol) = data vol ! i # drop (Suc i) (data vol)"
      by (simp add: Cons_nth_drop_Suc)
    then show "take 1 (drop i (data vol)) = [data vol ! i]"
      by simp
  qed
  have "concat (map (\<lambda>i. take 1 (drop i (data vol))) (nonzero_flat (data mask_data)))
      = map (\<lambda>i. data vol ! i) (nonzero_flat (data mask_data))"
    unfolding eq by simp
  then show ?thesis using assms(1) by (simp add: bool_index_def)
qed

lemma foldl_update_nth:
  "i < length out0 \<Longrightarrow>
     foldl (\<lambda>out p. out[p := g p]) out0 ps ! i = (if i \<in> set ps then g i else out0 ! i)"
proof (induction ps arbitrary: out0)
  case Nil
  show ?case by simp
next
  case (Cons p ps)
  have "i < length (out0[p := g p])" using Cons.prems by simp
  from Cons.IH[OF this] Cons.prems show ?case
    by (auto simp: nth_list_update)
qed

lemma scatter_nth:
  assumes "set ps \<subseteq> {i. i < prod_list shp}" and "i \<in> set ps"
  shows "data (scatter shp (map (\<lambda>d. map (\<lambda>p. unravel_index shp p ! d) ps) [0..<length shp])
                 (map g ps)) ! i = g i"
proof -
  let ?ix = "map (\<lambda>d. map (\<lambda>p. unravel_index shp p ! d) ps) [0..<length shp]"
  have coords: "map (\<lambda>ix. ix ! j) ?ix = unravel_index shp (ps ! j)" if "j < length ps" for j
  proof -
    have "map (\<lambda>ix. ix ! j) ?ix = map (\<lambda>d. unravel_index shp (ps ! j) ! d) [0..<length shp]"
      using that by (simp add: comp_def)
    also have "\<dots> = map (\<lambda>d. unravel_index shp (ps ! j) ! d) [0..<length (unravel_index shp (ps ! j))]"
      by (simp add: length_unravel_index)
    also have "\<dots> = unravel_index shp (ps ! j)" by (rule map_nth)
    finally show ?thesis .
  qed
  have "foldl (\<lambda>out j. out[ravel_index shp (map (\<lambda>ix. ix ! j) ?ix) := map g ps ! j])
              (replicate (prod_list shp) 0) [0..<length ps]
      = foldl (\<lambda>out j. out[ps ! j := g (ps ! j)]) (replicate (prod_list shp) 0) [0..<length ps]"
  proof (rule foldl_cong)
    fix out j assume "j \<in> set [0..<length ps]"
    then have j: "j < length ps" by simp
    then have "ps ! j < prod_list shp" using assms(1) by (auto dest: nth_mem)
    then have r: "ravel_index shp (map (\<lambda>ix. ix ! j) ?ix) = ps ! j"
      unfolding coords[OF j] by (rule ravel_unravel)
    have v: "map g ps ! j = g (ps ! j)" using j by simp
    show "out[ravel_index shp (map (\<lambda>ix. ix ! j) ?ix) := map g ps ! j] = out[ps ! j := g (ps ! j)]"
      unfolding r v by (rule refl)
  qed simp_all
  also have "\<dots> = foldl (\<lambda>out p. out[p := g p]) (replicate (prod_list shp) 0) (map (\<lambda>j. ps ! j) [0..<length ps])"
    by (simp add: foldl_map)
  also have "\<dots> = foldl (\<lambda>out p. out[p := g p]) (replicate (prod_list shp) 0) ps"
    by (simp add: map_nth)
  finally have "data (scatter shp ?ix (map g ps))
      = foldl (\<lambda>out p. out[p := g p]) (replicate (prod_list shp) 0) ps"
    by (simp add: scatter_def)
  moreover have "i < length (replicate (prod_list shp) (0::int))"
    using assms by auto
  ultimately show ?thesis using assms(2) by (simp add: foldl_update_nth)
qed

lemma load_mask_legal:
  assumes "check_img nib_load image' True = Inr img"
      and "legal_mask_values (set (data (dataobj img))) allow_empty"
  shows "load_mask nib_load image' allow_empty =
           (Inr \<lparr>dataobj = as_bool (dataobj img), affine = affine img\<rparr>, [GetData img, GetData img])"
  using assms(2) unfolding load_mask_run[OF assms(1)] legal_mask_values_def by auto

lemma check_img_compatibility_ok:
  "have_same_shape a b flag \<Longrightarrow> affine a = affine b \<Longrightarrow> check_img_compatibility a b flag = ret ()"
  by (simp add: check_img_compatibility_def)


lemma apply_mask_run:
  assumes "check_img nib_load image' False = Inr img"
      and "check_img nib_load mask_img False = Inr m"
      and "have_same_shape img m False" and "affine img = affine m"
      and "check_img nib_load mask_img True = Inr msk"
      and "legal_mask_values (set (data (dataobj msk))) True"
      and "shape (dataobj msk) = shape (dataobj img)"
      and "wf_array (dataobj img)" and "wf_array (dataobj msk)"
  shows "apply_mask nib_load image' mask_img =
    (Inr (\<lparr>shape = [length (nonzero_flat (data (dataobj msk)))],
           data = map (\<lambda>i. data (dataobj img) ! i) (nonzero_flat (data (dataobj msk)))\<rparr>,
          map (\<lambda>d. map (\<lambda>p. unravel_index (shape (dataobj img)) p ! d)
                       (nonzero_flat (data (dataobj msk))))
              [0..<length (shape (dataobj img))]),
     [GetData img, GetData msk, GetData msk,
      GetData \<lparr>dataobj = as_bool (dataobj msk), affine = affine msk\<rparr>])"
proof -
  have wfb: "wf_array (as_bool (dataobj msk))"
    using assms(9) by (simp add: wf_array_def as_bool_def)
  have shb: "shape (as_bool (dataobj msk)) = shape (dataobj img)"
    using assms(7) by (simp add: as_bool_def)
  have nz: "nonzero_flat (data (as_bool (dataobj msk))) = nonzero_flat (data (dataobj msk))"
    by (simp add: as_bool_def nonzero_flat_as_bool)
  have bi: "bool_index (dataobj img) (as_bool (dataobj msk)) =
      Inr \<lparr>shape = [length (nonzero_flat (data (dataobj msk)))],
           data = map (\<lambda>i. data (dataobj img) ! i) (nonzero_flat (data (dataobj msk)))\<rparr>"
    using bool_index_same_shape[OF shb assms(8) wfb] by (simp only: nz)
  have wh: "np_where (as_bool (dataobj msk)) =
      map (\<lambda>d. map (\<lambda>p. unravel_index (shape (dataobj img)) p ! d)
                   (nonzero_flat (data (dataobj msk))))
          [0..<length (shape (dataobj img))]"
    by (simp only: np_where_def nz shb)
  show ?thesis
    unfolding apply_mask_def
    by (simp add: assms(1,2) check_img_compatibility_ok[OF assms(3,4)]
        load_mask_legal[OF assms(5,6)] get_data_def ret_def bi wh)
qed

text \<open>
  Claim C2. For a volume and a mask that pass the compatibility check, the mask holding
  legal mask values and having the volume's shape, \<open>apply_mask\<close> returns values and
  indices, and scattering the values at the indices into a fresh array of zeros of the
  volume's shape gives an array that agrees with the volume at every voxel where the
  mask is non-zero.
\<close>

theorem apply_mask_round_trip:
  assumes "check_img nib_load image' False = Inr img"
      and "check_img nib_load mask_img False = Inr m"
      and "have_same_shape img m False" and "affine img = affine m"
      and "check_img nib_load mask_img True = Inr msk"
      and "legal_mask_values (set (data (dataobj msk))) True"
      and "shape (dataobj msk) = shape (dataobj img)"
      and "wf_array (dataobj img)" and "wf_array (dataobj msk)"
  shows "\<exists>vals indices t.
           apply_mask nib_load image' mask_img = (Inr (vals, indices), t) \<and>
           (\<forall>i < length (data (dataobj img)).
              data (dataobj msk) ! i \<noteq> 0 \<longrightarrow>
              data (scatter (shape (dataobj img)) indices (data vals)) ! i = data (dataobj img) ! i)"
proof -
  let ?ps = "nonzero_flat (data (dataobj msk))"
  have len: "length (data (dataobj msk)) = length (data (dataobj img))"
    using assms(7,8,9) by (simp add: wf_array_def)
  have sub: "set ?ps \<subseteq> {i. i < prod_list (shape (dataobj img))}"
    using assms(8) len by (auto simp: set_nonzero_flat wf_array_def)
  have "data (scatter (shape (dataobj img))
               (map (\<lambda>d. map (\<lambda>p. unravel_index (shape (dataobj img)) p ! d) ?ps)
                    [0..<length (shape (dataobj img))])
               (map (\<lambda>i. data (dataobj img) ! i) ?ps)) ! i = data (dataobj img) ! i"
    if "i < length (data (dataobj img))" and "data (dataobj msk) ! i \<noteq> 0" for i
  proof (rule scatter_nth[OF sub])
    show "i \<in> set ?ps" using that len by (simp add: set_nonzero_flat)
  qed
  then show ?thesis
    unfolding apply_mask_run[OF assms] by simp
qed

theorem apply_mask_round_trip_witness:
  "apply_mask example_load (Path ''vol.nii'') (Path ''mask2.nii'') =
     (Inr (\<lparr>shape = [2], data = [6, 8]\<rparr>, [[0, 0], [0, 1], [1, 1]]),
      [GetData example_vol, GetData example_mask2, GetData example_mask2,
       GetData \<lparr>dataobj = as_bool (dataobj example_mask2), affine = affine example_mask2\<rparr>])
   \<and> data (scatter [1, 2, 2] [[0, 0], [0, 1], [1, 1]] [6, 8]) ! 1 = 6
   \<and> data (scatter [1, 2, 2] [[0, 0], [0, 1], [1, 1]] [6, 8]) ! 3 = 8"
proof -
  have c1: "check_img example_load (Path ''vol.nii'') False = Inr example_vol"
    by (simp add: check_img_def example_load_def)
  have c2: "check_img example_load (Path ''mask2.nii'') False = Inr example_mask2"
    by (simp add: check_img_def example_load_def)
  have c3: "check_img example_load (Path ''mask2.nii'') True = Inr example_mask2"
    by (simp add: check_img_def example_load_def)
  have s: "have_same_shape example_vol example_mask2 False"
    by (simp add: have_same_shape_def example_vol_def example_mask2_def)
  have a: "affine example_vol = affine example_mask2"
    by (simp add: example_vol_def example_mask2_def)
  have v: "set (data (dataobj example_mask2)) = {0, 3}"
    by (auto simp: example_mask2_def)
  have l: "legal_mask_values (set (data (dataobj example_mask2))) True"
    unfolding v by (simp add: legal_mask_values_def)
  have sh: "shape (dataobj example_mask2) = shape (dataobj example_vol)"
    by (simp add: example_vol_def example_mask2_def)
  have w1: "wf_array (dataobj example_vol)" by (simp add: wf_array_def example_vol_def)
  have w2: "wf_array (dataobj example_mask2)" by (simp add: wf_array_def example_mask2_def)
  have run: "apply_mask example_load (Path ''vol.nii'') (Path ''mask2.nii'') =
     (Inr (\<lparr>shape = [2], data = [6, 8]\<rparr>, [[0, 0], [0, 1], [1, 1]]),
      [GetData example_vol, GetData example_mask2, GetData example_mask2,
       GetData \<lparr>dataobj = as_bool (dataobj example_mask2), affine = affine example_mask2\<rparr>])"
    by code_simp
  from apply_mask_round_trip[OF c1 c2 s a c3 l sh w1 w2]
  have "\<forall>i < length (data (dataobj example_vol)).
          data (dataobj example_mask2) ! i \<noteq> 0 \<longrightarrow>
          data (scatter (shape (dataobj example_vol)) [[0, 0], [0, 1], [1, 1]] [6, 8]) ! i
            = data (dataobj example_vol) ! i"
    unfolding run by simp
  then have "\<forall>i < 4. [0, 3, 0, 3 :: int] ! i \<noteq> 0 \<longrightarrow>
          data (scatter [1, 2, 2] [[0, 0], [0, 1], [1, 1]] [6, 8]) ! i = [5, 6, 7, 8 :: int] ! i"
    by (simp add: example_vol_def example_mask2_def)
  then have "data (scatter [1, 2, 2] [[0, 0], [0, 1], [1, 1]] [6, 8]) ! 1 = 6"
    and "data (scatter [1, 2, 2] [[0, 0], [0, 1], [1, 1]] [6, 8]) ! 3 = 8"
    by (auto dest: spec[of _ 1] spec[of _ 3])
  with run show ?thesis by simp
qed

lemma set_row_shape: "set_row outmat i row = Inr out' \<Longrightarrow> shape out' = shape outmat"
  by (auto simp: set_row_def Let_def split: if_splits)

lemma niftilist_loop_shape:
  "niftilist_loop nib_load mask_file indices items outmat = (Inr out', t) \<Longrightarrow>
     shape out' = shape outmat"
proof (induction items arbitrary: outmat t)
  case Nil
  then show ?case by (simp add: ret_def)
next
  case (Cons item items)
  obtain i img_item where item: "item = (i, img_item)" by (cases item)
  from Cons.prems obtain img where img: "check_img nib_load img_item False = Inr img"
    by (cases "check_img nib_load img_item False") (auto simp: item)
  from Cons.prems obtain b t1 where ok: "are_compatible_imgs nib_load (Image img) mask_file = (Inr b, t1)"
    by (cases "are_compatible_imgs nib_load (Image img) mask_file"; cases "fst (are_compatible_imgs nib_load (Image img) mask_file)")
       (auto simp: item img)
  have b: "b" using Cons.prems by (cases b) (auto simp: item img ok raise_def)
  from Cons.prems obtain row where row: "index_arrays (dataobj img) indices = Inr row"
    by (cases "index_arrays (dataobj img) indices") (auto simp: item img ok b)
  from Cons.prems obtain out1 where out1: "set_row outmat i row = Inr out1"
    by (cases "set_row outmat i row") (auto simp: item img ok b row)
  from Cons.prems obtain t2 where "niftilist_loop nib_load mask_file indices items out1 = (Inr out', t2)"
    by (cases "niftilist_loop nib_load mask_file indices items out1")
       (auto simp: item img ok b row out1)
  then have "shape out' = shape out1" by (rule Cons.IH)
  with set_row_shape[OF out1] show ?case by simp
qed

lemma niftilist_mask_to_array_shape:
  assumes "niftilist_mask_to_array nib_load img_filelist mask_file = (Inr (outmat, indices, shp), t)"
  shows "shape outmat = [length img_filelist, 1]"
proof -
  from assms obtain img_item0 rest where fl: "img_filelist = img_item0 # rest"
    by (cases img_filelist) (auto simp: niftilist_mask_to_array_def raise_def)
  from assms obtain img where img: "check_img nib_load img_item0 False = Inr img"
    by (cases "check_img nib_load img_item0 False") (auto simp: niftilist_mask_to_array_def fl)
  from assms obtain bmask t1 where lm: "load_mask nib_load mask_file True = (Inr bmask, t1)"
    by (cases "load_mask nib_load mask_file True"; cases "fst (load_mask nib_load mask_file True)")
       (auto simp: niftilist_mask_to_array_def fl img)
  let ?loop = "niftilist_loop nib_load mask_file (np_where (dataobj bmask))
                 (zip [0..<length img_filelist] img_filelist)
                 (np_zeros [length img_filelist, count_nonzero_object bmask])"
  from assms obtain t2 where "?loop = (Inr outmat, t2)"
    by (cases ?loop; cases "fst ?loop")
       (auto simp: niftilist_mask_to_array_def fl img lm Let_def ret_def)
  from niftilist_loop_shape[OF this] show ?thesis
    by (simp add: np_zeros_def count_nonzero_object_def)
qed

text \<open>
  Claim C4, at a mask of two true voxels. \<open>niftilist_mask_to_array\<close> sizes the output
  matrix with \<open>np.count_nonzero(mask)\<close>, where \<open>mask\<close> is the image object that
  \<open>load_mask\<close> returned and not its boolean array \<open>mask_data\<close>: the matrix has one
  column whatever the mask holds (\<open>niftilist_mask_to_array_shape\<close>). With one file and
  the mask \<open>[0, 3, 0, 3]\<close> the two masked values do not fit the row of one element,
  and the function raises the broadcast error of the row assignment instead of
  returning a 1 x 2 matrix.
\<close>

theorem niftilist_mask_to_array_two_voxel_mask:
  "length (nonzero_flat (data (dataobj example_mask2))) = 2
   \<and> fst (niftilist_mask_to_array example_load [Path ''vol.nii''] (Path ''mask2.nii''))
       = Inl (ValueError ''could not broadcast input array'')"
  by code_simp












section \<open>Properties of the command lookup\<close>

text \<open>
  Claim C9. \<open>which\<close> raises \<open>NameError\<close> for every program name, on every system: it
  reads the global \<open>sys\<close>, which the module does not bind. It never returns a path.
\<close>

theorem which_raises_NameError: "which sys program = Inl (NameError ''sys'')"
  by (simp add: which_def load_global_def commands_globals_def)

end
